theory Spec2Isabelle
  imports Complex_Main
begin

section \<open>Number model\<close>

text \<open>
  The calculator works on JavaScript numbers. The embedding reads a finite number as a
  real (exact arithmetic; rounding is not part of the model) and a trial count, kill
  number, pity start or sample count as an integer (the specification's TrialCount). A thrown
  \<open>Error\<close> is the left summand of the result, carrying the source's message.
  The values \<open>Infinity\<close>, \<open>-Infinity\<close> and \<open>NaN\<close> are kept apart from the reals
  where the source can produce them (\<open>Math.log\<close> of a non-positive argument, a division
  by zero).
\<close>

datatype error = Error string

datatype number = Fin real | PosInf | NegInf | NaN

text \<open>\<open>Math.log\<close>: NaN below zero, \<open>-Infinity\<close> at zero, the natural logarithm above.\<close>

definition Math_log :: "real \<Rightarrow> number" where
  "Math_log x = (if x < 0 then NaN else if x = 0 then NegInf else Fin (ln x))"

text \<open>The quotient \<open>a / b\<close> of two numbers; a zero divisor is read as \<open>+0\<close>.\<close>

fun js_div :: "number \<Rightarrow> number \<Rightarrow> number" where
  "js_div NaN b = NaN"
| "js_div a NaN = NaN"
| "js_div (Fin x) (Fin y) =
     (if y = 0 then (if x = 0 then NaN else if 0 < x then PosInf else NegInf)
      else Fin (x / y))"
| "js_div (Fin x) PosInf = Fin 0"
| "js_div (Fin x) NegInf = Fin 0"
| "js_div PosInf (Fin y) = (if 0 \<le> y then PosInf else NegInf)"
| "js_div NegInf (Fin y) = (if 0 \<le> y then NegInf else PosInf)"
| "js_div PosInf PosInf = NaN"
| "js_div PosInf NegInf = NaN"
| "js_div NegInf PosInf = NaN"
| "js_div NegInf NegInf = NaN"

fun Math_ceil :: "number \<Rightarrow> number" where
  "Math_ceil (Fin x) = Fin (of_int \<lceil>x\<rceil>)"
| "Math_ceil PosInf = PosInf"
| "Math_ceil NegInf = NegInf"
| "Math_ceil NaN = NaN"

section \<open>dropRate.ts\<close>

definition MAX_PROBABILITY :: real where
  "MAX_PROBABILITY = 0.9999"

definition calculateBaseProbability :: "real \<Rightarrow> error + real" where
  "calculateBaseProbability dropRate =
     (if dropRate \<le> 0 then Inl (Error ''Drop rate must be positive'')
      else Inr (1 / dropRate))"

text \<open>
  \<open>Math.pow(1 - baseProbability, attempts)\<close> is reached only with \<open>attempts \<ge> 1\<close>,
  where it is the power with a natural exponent.
\<close>

definition calculateCumulativeProbability :: "int \<Rightarrow> real \<Rightarrow> error + real" where
  "calculateCumulativeProbability attempts dropRate =
     (if attempts < 0 then Inl (Error ''Attempts must be non-negative'')
      else if attempts = 0 then Inr 0
      else (case calculateBaseProbability dropRate of
              Inl e \<Rightarrow> Inl e
            | Inr baseProbability \<Rightarrow>
                (let probabilityOfNone = (1 - baseProbability) ^ nat attempts;
                     cumulativeProbability = 1 - probabilityOfNone
                 in Inr (min cumulativeProbability MAX_PROBABILITY))))"

definition findMilestoneAttempts :: "real \<Rightarrow> real \<Rightarrow> error + number" where
  "findMilestoneAttempts targetProbability dropRate =
     (if targetProbability \<le> 0 \<or> targetProbability \<ge> 1
      then Inl (Error ''Target probability must be between 0 and 1 (exclusive)'')
      else (case calculateBaseProbability dropRate of
              Inl e \<Rightarrow> Inl e
            | Inr baseProbability \<Rightarrow>
                (let cappedTarget = min targetProbability MAX_PROBABILITY;
                     attempts = js_div (Math_log (1 - cappedTarget))
                                       (Math_log (1 - baseProbability))
                 in Inr (Math_ceil attempts))))"

section \<open>badLuckMitigation.ts\<close>

definition getDropRateForKill :: "int \<Rightarrow> real \<Rightarrow> int \<Rightarrow> real \<Rightarrow> error + real" where
  "getDropRateForKill killNumber baseDenominator mitigationStart mitigationCap =
     (if killNumber \<le> 0 then Inl (Error ''Kill number must be positive'')
      else if baseDenominator \<le> 0 then Inl (Error ''Base denominator must be positive'')
      else if mitigationCap \<le> 0 then Inl (Error ''Mitigation cap must be positive'')
      else if mitigationStart < 0 then Inl (Error ''Mitigation start must be non-negative'')
      else if killNumber \<le> mitigationStart then Inr baseDenominator
      else (let killsPastStart = killNumber - mitigationStart;
                adjustedDenominator = baseDenominator - of_int killsPastStart
            in Inr (max adjustedDenominator mitigationCap)))"

text \<open>
  The loop \<open>for (let kill = 1; kill <= attempts; kill++)\<close> of
  \<open>calculateCumulativeProbabilityWithBLM\<close>, from the current \<open>kill\<close> with the running
  \<open>probabilityOfNoDrop\<close>. A throw of \<open>getDropRateForKill\<close> leaves the loop.
\<close>

function blm_loop :: "int \<Rightarrow> int \<Rightarrow> real \<Rightarrow> int \<Rightarrow> real \<Rightarrow> real \<Rightarrow> error + real" where
  "blm_loop kill attempts baseDenominator mitigationStart mitigationCap probabilityOfNoDrop =
     (if kill \<le> attempts then
        (case getDropRateForKill kill baseDenominator mitigationStart mitigationCap of
           Inl e \<Rightarrow> Inl e
         | Inr dropRateDenominator \<Rightarrow>
             blm_loop (kill + 1) attempts baseDenominator mitigationStart mitigationCap
               (probabilityOfNoDrop * (1 - 1 / dropRateDenominator)))
      else Inr probabilityOfNoDrop)"
  by pat_completeness auto
termination
  by (relation "measure (\<lambda>(kill, attempts, b, s, c, p). nat (attempts + 1 - kill))") auto

declare blm_loop.simps [simp del]

definition calculateCumulativeProbabilityWithBLM ::
  "int \<Rightarrow> real \<Rightarrow> int \<Rightarrow> real \<Rightarrow> error + real" where
  "calculateCumulativeProbabilityWithBLM attempts baseDenominator mitigationStart mitigationCap =
     (if attempts < 0 then Inl (Error ''Attempts must be non-negative'')
      else if attempts = 0 then Inr 0
      else (case blm_loop 1 attempts baseDenominator mitigationStart mitigationCap 1 of
              Inl e \<Rightarrow> Inl e
            | Inr probabilityOfNoDrop \<Rightarrow>
                (let cumulativeProbability = 1 - probabilityOfNoDrop
                 in Inr (min cumulativeProbability 0.9999))))"

section \<open>luck.ts\<close>

definition LOTD_MULTIPLIER :: real where
  "LOTD_MULTIPLIER = 1.01"

definition applyLuckToDropRate :: "real \<Rightarrow> error + real" where
  "applyLuckToDropRate baseDenominator =
     (if baseDenominator \<le> 0 then Inl (Error ''Base denominator must be positive'')
      else Inr (baseDenominator / LOTD_MULTIPLIER))"

definition calculateCumulativeProbabilityWithLuck :: "int \<Rightarrow> real \<Rightarrow> error + real" where
  "calculateCumulativeProbabilityWithLuck attempts baseDenominator =
     (case applyLuckToDropRate baseDenominator of
        Inl e \<Rightarrow> Inl e
      | Inr improvedDenominator \<Rightarrow> calculateCumulativeProbability attempts improvedDenominator)"

text \<open>The loop of \<open>calculateCumulativeProbabilityWithLuckAndBLM\<close>, on the improved values.\<close>

function luck_blm_loop :: "int \<Rightarrow> int \<Rightarrow> real \<Rightarrow> int \<Rightarrow> real \<Rightarrow> real \<Rightarrow> error + real" where
  "luck_blm_loop kill attempts improvedBaseDenominator mitigationStart improvedMitigationCap
       probabilityOfNoDrop =
     (if kill \<le> attempts then
        (case getDropRateForKill kill improvedBaseDenominator mitigationStart
                improvedMitigationCap of
           Inl e \<Rightarrow> Inl e
         | Inr dropRateDenominator \<Rightarrow>
             luck_blm_loop (kill + 1) attempts improvedBaseDenominator mitigationStart
               improvedMitigationCap (probabilityOfNoDrop * (1 - 1 / dropRateDenominator)))
      else Inr probabilityOfNoDrop)"
  by pat_completeness auto
termination
  by (relation "measure (\<lambda>(kill, attempts, b, s, c, p). nat (attempts + 1 - kill))") auto

declare luck_blm_loop.simps [simp del]

definition calculateCumulativeProbabilityWithLuckAndBLM ::
  "int \<Rightarrow> real \<Rightarrow> int \<Rightarrow> real \<Rightarrow> error + real" where
  "calculateCumulativeProbabilityWithLuckAndBLM attempts baseDenominator mitigationStart
       mitigationCap =
     (if attempts < 0 then Inl (Error ''Attempts must be non-negative'')
      else if attempts = 0 then Inr 0
      else (case applyLuckToDropRate baseDenominator of
              Inl e \<Rightarrow> Inl e
            | Inr improvedBaseDenominator \<Rightarrow>
          (case applyLuckToDropRate mitigationCap of
              Inl e \<Rightarrow> Inl e
            | Inr improvedMitigationCap \<Rightarrow>
          (case luck_blm_loop 1 attempts improvedBaseDenominator mitigationStart
                  improvedMitigationCap 1 of
              Inl e \<Rightarrow> Inl e
            | Inr probabilityOfNoDrop \<Rightarrow>
                (let cumulativeProbability = 1 - probabilityOfNoDrop
                 in Inr (min cumulativeProbability 0.9999))))))"



section \<open>tableBased.ts\<close>

definition calculateTableHitProbability :: "real \<Rightarrow> real \<Rightarrow> error + real" where
  "calculateTableHitProbability numerator denominator =
     (if numerator \<le> 0 \<or> denominator \<le> 0
      then Inl (Error ''Numerator and denominator must be positive'')
      else if numerator > denominator
      then Inl (Error ''Numerator cannot be greater than denominator'')
      else Inr (numerator / denominator))"

definition calculateItemFromTableProbability :: "real \<Rightarrow> real \<Rightarrow> error + real" where
  "calculateItemFromTableProbability itemWeight totalWeight =
     (if itemWeight \<le> 0 \<or> totalWeight \<le> 0
      then Inl (Error ''Weights must be positive'')
      else if itemWeight > totalWeight
      then Inl (Error ''Item weight cannot be greater than total weight'')
      else Inr (itemWeight / totalWeight))"

text \<open>
  Both stage probabilities are positive when they are returned, so the final division
  \<open>1 / finalProbability\<close> never has a zero divisor.
\<close>

definition calculateTableBasedDropRate :: "real \<Rightarrow> real \<Rightarrow> real \<Rightarrow> real \<Rightarrow> error + real" where
  "calculateTableBasedDropRate tableNumerator tableDenominator itemWeight totalWeight =
     (case calculateTableHitProbability tableNumerator tableDenominator of
        Inl e \<Rightarrow> Inl e
      | Inr tableProb \<Rightarrow>
     (case calculateItemFromTableProbability itemWeight totalWeight of
        Inl e \<Rightarrow> Inl e
      | Inr itemProb \<Rightarrow>
          (let finalProbability = tableProb * itemProb
           in Inr (1 / finalProbability))))"

section \<open>enrageScaling.ts\<close>

definition calculateTelosDropRate :: "real \<Rightarrow> real \<Rightarrow> error + real" where
  "calculateTelosDropRate enrage baseDropRate =
     (if enrage < 0 \<or> enrage > 4000
      then Inl (Error ''Telos enrage must be between 0 and 4000'')
      else (let improvementFactor = 1 + enrage / 1000
            in Inr (baseDropRate / improvementFactor)))"

definition calculateZamorakDropRate :: "real \<Rightarrow> real \<Rightarrow> error + real" where
  "calculateZamorakDropRate enrage baseDropRate =
     (if enrage < 0 \<or> enrage > 4000
      then Inl (Error ''Zamorak enrage must be between 0 and 4000'')
      else (let improvementFactor = 1 + enrage / 800
            in Inr (baseDropRate / improvementFactor)))"

definition calculateArchGlacorDropRate :: "real \<Rightarrow> real \<Rightarrow> error + real" where
  "calculateArchGlacorDropRate enrage baseDropRate =
     (if enrage < 0
      then Inl (Error ''Arch-Glacor enrage must be non-negative'')
      else (let improvementFactor = 1 + enrage / 1200
            in Inr (baseDropRate / improvementFactor)))"

text \<open>
  The boss is the string the \<open>switch\<close> compares; any other string reaches the
  \<open>default\<close> branch.
\<close>

definition calculateEnrageScaledDropRate :: "string \<Rightarrow> real \<Rightarrow> real \<Rightarrow> error + real" where
  "calculateEnrageScaledDropRate boss enrage baseDropRate =
     (if boss = ''telos'' then calculateTelosDropRate enrage baseDropRate
      else if boss = ''zamorak'' then calculateZamorakDropRate enrage baseDropRate
      else if boss = ''arch_glacor'' then calculateArchGlacorDropRate enrage baseDropRate
      else Inl (Error (''Unknown enrage-scaling boss: '' @ boss)))"

text \<open>
  \<open>calculateCumulativeProbabilityWithEnrage\<close> does not validate the scaled rate. At a
  scaled rate of zero (read as \<open>+0\<close>) \<open>1 / scaledDropRate\<close> is \<open>Infinity\<close>, the
  power of \<open>1 - Infinity\<close> is \<open>Infinity\<close> for an even and \<open>-Infinity\<close> for an odd
  exponent, and the minimum of one minus that power and 0.9999 is \<open>-Infinity\<close> for an
  even and 0.9999 for an odd number of attempts.
\<close>

definition calculateCumulativeProbabilityWithEnrage ::
  "int \<Rightarrow> string \<Rightarrow> real \<Rightarrow> real \<Rightarrow> error + number" where
  "calculateCumulativeProbabilityWithEnrage attempts boss enrage baseDropRate =
     (if attempts < 0 then Inl (Error ''Attempts must be non-negative'')
      else if attempts = 0 then Inr (Fin 0)
      else (case calculateEnrageScaledDropRate boss enrage baseDropRate of
              Inl e \<Rightarrow> Inl e
            | Inr scaledDropRate \<Rightarrow>
                if scaledDropRate = 0
                then Inr (if even attempts then NegInf else Fin 0.9999)
                else (let baseProbability = 1 / scaledDropRate;
                          probabilityOfNone = (1 - baseProbability) ^ nat attempts;
                          cumulativeProbability = 1 - probabilityOfNone
                      in Inr (Fin (min cumulativeProbability 0.9999)))))"

section \<open>graphDataGenerator.ts\<close>

text \<open>
  The loop \<open>for (let i = step; i < maxAttempts; i += step)\<close> of
  \<open>generateAttemptValues\<close>. Nothing in the source bounds it when \<open>step\<close> is not
  positive, so it is a partial function: \<open>None\<close> is the loop that never ends.
\<close>

partial_function (option) attempts_loop :: "int \<Rightarrow> int \<Rightarrow> int \<Rightarrow> int list \<Rightarrow> int list option" where
  "attempts_loop i step maxAttempts attempts =
     (if i < maxAttempts then attempts_loop (i + step) step maxAttempts (attempts @ [i])
      else Some attempts)"

text \<open>
  With \<open>maxDataPoints = 1\<close> the step is a division by zero: \<open>Infinity\<close> for a positive
  \<open>maxAttempts\<close> (the loop is not entered), \<open>NaN\<close> for zero (every comparison is
  false) and \<open>-Infinity\<close> for a negative one (the loop never ends). Otherwise the step
  is the integer \<open>Math.ceil(maxAttempts / (maxDataPoints - 1))\<close>. The final test reads
  the last element of a list that is never empty.
\<close>

definition generateAttemptValues :: "int \<Rightarrow> int \<Rightarrow> int list option" where
  "generateAttemptValues maxAttempts maxDataPoints =
     (if maxDataPoints - 1 = 0 then
        (if 0 < maxAttempts then Some [0, maxAttempts]
         else if maxAttempts = 0 then Some [0]
         else None)
      else
        (let step = \<lceil>real_of_int maxAttempts / real_of_int (maxDataPoints - 1)\<rceil>
         in (case attempts_loop step step maxAttempts [0] of
               None \<Rightarrow> None
             | Some attempts \<Rightarrow>
                 if last attempts \<noteq> maxAttempts then Some (attempts @ [maxAttempts])
                 else Some attempts)))"

section \<open>Auxiliary notions for the proofs\<close>

text \<open>
  The value \<open>getDropRateForKill\<close> returns on valid arguments, and the per-kill factor
  \<open>1 - 1 / dropRateDenominator\<close> that the two pity loops multiply up.
\<close>

definition pity_denominator :: "real \<Rightarrow> int \<Rightarrow> real \<Rightarrow> int \<Rightarrow> real" where
  "pity_denominator b s c k = (if k \<le> s then b else max (b - of_int (k - s)) c)"

definition no_drop_factor :: "real \<Rightarrow> int \<Rightarrow> real \<Rightarrow> int \<Rightarrow> real" where
  "no_drop_factor b s c k = 1 - 1 / pity_denominator b s c k"

section \<open>The zero-attempts early return\<close>

text \<open>
  C10. With zero attempts \<open>calculateCumulativeProbability\<close> returns 0 for every drop
  rate, also a non-positive one: the early return comes before the validation of the
  rate in \<open>calculateBaseProbability\<close>, so no error is raised.
\<close>

theorem calculateCumulativeProbability_zero_attempts:
  "calculateCumulativeProbability 0 dropRate = Inr 0"
  by (simp add: calculateCumulativeProbability_def)

section \<open>The pity schedule at one kill\<close>

text \<open>
  C7, as stated: the effective denominator at kill 15 with base 128, start 10 and cap 20
  would be 124. The source subtracts the five kills past the start, so the value is not
  124.
\<close>

theorem getDropRateForKill_15_not_124:
  "getDropRateForKill 15 128 10 20 \<noteq> Inr 124"
  by (simp add: getDropRateForKill_def)

text \<open>
  C7, amended: the effective denominator at kill 15 with base 128, start 10 and cap 20
  is \<open>max (128 - (15 - 10)) 20 = 123\<close>.
\<close>

theorem getDropRateForKill_15_is_123:
  "getDropRateForKill 15 128 10 20 = Inr 123"
  by (simp add: getDropRateForKill_def)

section \<open>The compound rate\<close>

text \<open>
  C3, as stated: the effective rate of a valid compound configuration would be at least
  the larger of the stage-one denominator and the total weight. For the configuration
  6/128 with item weight 5 of 12 the rate is 51.2, below 128.
\<close>

theorem calculateTableBasedDropRate_below_denominator:
  "calculateTableBasedDropRate 6 128 5 12 = Inr (256 / 5) \<and>
   \<not> max 128 12 \<le> (256 / 5 :: real)"
  by (simp add: calculateTableBasedDropRate_def calculateTableHitProbability_def
      calculateItemFromTableProbability_def)

text \<open>
  C3, amended: for a valid compound configuration of positive integers up to \<open>2\<^sup>5\<^sup>3\<close>
  (the range in which a number holds every integer exactly, and in which neither stage
  probability nor their product can leave the finite numbers), with
  \<open>tableNumerator \<le> tableDenominator\<close> and \<open>itemWeight \<le> totalWeight\<close>,
  \<open>calculateTableBasedDropRate\<close> returns a rate that is at least the rate of either
  stage alone, taken from the stage probabilities the source computes:
  \<open>1 / calculateTableHitProbability\<close> and \<open>1 / calculateItemFromTableProbability\<close>.
  The product of two probabilities of at most one is at most either factor, and the
  reciprocal reverses the order; neither step depends on how a quotient is rounded.
\<close>

theorem calculateTableBasedDropRate_ge_stage_rates:
  assumes "1 \<le> n" and "n \<le> d" and "d \<le> 2 ^ 53"
    and "1 \<le> w" and "w \<le> t" and "t \<le> 2 ^ 53"
  shows "\<exists>tableProb itemProb r.
           calculateTableHitProbability n d = Inr tableProb \<and>
           calculateItemFromTableProbability w t = Inr itemProb \<and>
           calculateTableBasedDropRate n d w t = Inr r \<and>
           max (1 / tableProb) (1 / itemProb) \<le> r"
proof -
  define a where "a = n / d"
  define b where "b = w / t"
  have pos: "0 < n" "0 < d" "0 < w" "0 < t" using assms by linarith+
  have a: "0 < a" "a \<le> 1" unfolding a_def using pos assms(2) by simp_all
  have b: "0 < b" "b \<le> 1" unfolding b_def using pos assms(5) by simp_all
  have ta: "calculateTableHitProbability n d = Inr a"
    unfolding a_def using pos assms(2) by (simp add: calculateTableHitProbability_def)
  have ib: "calculateItemFromTableProbability w t = Inr b"
    unfolding b_def using pos assms(5) by (simp add: calculateItemFromTableProbability_def)
  have r: "calculateTableBasedDropRate n d w t = Inr (1 / (a * b))"
    unfolding calculateTableBasedDropRate_def ta ib by (simp add: Let_def)
  have ab: "0 < a * b" using a(1) b(1) by simp
  have "a * b \<le> a" using a b by (simp add: mult_left_le)
  then have ra: "1 / a \<le> 1 / (a * b)" using ab by (simp add: frac_le)
  have "a * b \<le> b" using a b by (simp add: mult_left_le_one_le)
  then have rb: "1 / b \<le> 1 / (a * b)" using ab by (simp add: frac_le)
  show ?thesis using ta ib r ra rb by simp
qed

theorem calculateTableBasedDropRate_ge_stage_rates_witness:
  "(1::real) \<le> 6 \<and> (6::real) \<le> 128 \<and> (128::real) \<le> 2 ^ 53 \<and>
   (1::real) \<le> 2 \<and> (2::real) \<le> 12 \<and> (12::real) \<le> 2 ^ 53 \<and>
   calculateTableHitProbability 6 128 = Inr (3 / 64) \<and>
   calculateItemFromTableProbability 2 12 = Inr (1 / 6) \<and>
   calculateTableBasedDropRate 6 128 2 12 = Inr 128 \<and>
   max (1 / (3 / 64)) (1 / (1 / 6)) \<le> (128::real)"
  using calculateTableBasedDropRate_ge_stage_rates [of 6 128 2 12]
  by (simp add: calculateTableBasedDropRate_def calculateTableHitProbability_def
      calculateItemFromTableProbability_def)

section \<open>Enrage scaling\<close>

text \<open>
  C6. For each known boss (\<open>telos\<close>, \<open>zamorak\<close>, \<open>arch_glacor\<close>) and every positive
  base rate, the scaled rate at enrage 0 is the base rate, and for two enrage values
  \<open>p1 < p2\<close> inside the boss's domain (0 to 4000 for Telos and Zamorak, non-negative
  for Arch-Glacor) the scaled rate at \<open>p1\<close> is at least the one at \<open>p2\<close>.
\<close>

theorem calculateEnrageScaledDropRate_identity_and_monotone:
  assumes "boss \<in> {''telos'', ''zamorak'', ''arch_glacor''}" and "0 < baseRate"
  shows "calculateEnrageScaledDropRate boss 0 baseRate = Inr baseRate \<and>
    (\<forall>p1 p2. 0 \<le> p1 \<and> p1 < p2 \<and> (boss \<noteq> ''arch_glacor'' \<longrightarrow> p2 \<le> 4000) \<longrightarrow>
       (\<exists>r1 r2. calculateEnrageScaledDropRate boss p1 baseRate = Inr r1 \<and>
          calculateEnrageScaledDropRate boss p2 baseRate = Inr r2 \<and> r2 \<le> r1))"
proof -
  have mono: "baseRate / (1 + p2 / k) \<le> baseRate / (1 + p1 / k)"
    if "0 < k" and "0 \<le> p1" and "p1 < p2" for k p1 p2 :: real
  proof -
    have "1 + p1 / k \<le> 1 + p2 / k" using that by (simp add: divide_right_mono)
    moreover have "0 < 1 + p1 / k" using that by (simp add: add_pos_nonneg)
    ultimately show ?thesis using assms(2) by (simp add: frac_le)
  qed
  consider "boss = ''telos''" | "boss = ''zamorak''" | "boss = ''arch_glacor''"
    using assms(1) by auto
  then show ?thesis
  proof cases
    case 1
    then show ?thesis using mono [of 1000]
      by (simp add: calculateEnrageScaledDropRate_def calculateTelosDropRate_def)
  next
    case 2
    then show ?thesis using mono [of 800]
      by (simp add: calculateEnrageScaledDropRate_def calculateZamorakDropRate_def)
  next
    case 3
    then show ?thesis using mono [of 1200]
      by (simp add: calculateEnrageScaledDropRate_def calculateArchGlacorDropRate_def)
  qed
qed

theorem calculateEnrageScaledDropRate_identity_and_monotone_witness:
  "''telos'' \<in> {''telos'', ''zamorak'', ''arch_glacor''} \<and> (0::real) < 128 \<and>
   (0::real) \<le> 1000 \<and> (1000::real) < 3000 \<and> (3000::real) \<le> 4000 \<and>
   calculateEnrageScaledDropRate ''telos'' 0 128 = Inr 128 \<and>
   calculateEnrageScaledDropRate ''telos'' 1000 128 = Inr 64 \<and>
   calculateEnrageScaledDropRate ''telos'' 3000 128 = Inr 32 \<and> (32::real) \<le> 64"
  using calculateEnrageScaledDropRate_identity_and_monotone [of "''telos''" 128]
  by (simp add: calculateEnrageScaledDropRate_def calculateTelosDropRate_def)

section \<open>Sampling the trial counts\<close>

text \<open>
  With a step of at least one the sampling loop ends; it appends an ascending run of
  values between the start and \<open>maxAttempts\<close>.
\<close>

lemma attempts_loop_result:
  assumes "1 \<le> step"
  shows "\<exists>ys. attempts_loop i step m acc = Some (acc @ ys) \<and> sorted_wrt (<) ys \<and>
           (\<forall>y\<in>set ys. i \<le> y \<and> y < m) \<and>
           (ys \<noteq> [] \<longrightarrow> int (length ys) * step < m - i + step)"
proof (induction "nat (m - i)" arbitrary: i acc rule: less_induct)
  case less
  show ?case
  proof (cases "i < m")
    case False
    then have "attempts_loop i step m acc = Some (acc @ [])"
      by (subst attempts_loop.simps) simp
    then show ?thesis by force
  next
    case True
    have "nat (m - (i + step)) < nat (m - i)" using True assms by linarith
    from less [OF this, of "acc @ [i]"] obtain ys where
      ys: "attempts_loop (i + step) step m (acc @ [i]) = Some ((acc @ [i]) @ ys)"
        "sorted_wrt (<) ys" "\<forall>y\<in>set ys. i + step \<le> y \<and> y < m"
        "ys \<noteq> [] \<longrightarrow> int (length ys) * step < m - (i + step) + step"
      by blast
    have "attempts_loop i step m acc = Some (acc @ (i # ys))"
      using True ys(1) by (subst attempts_loop.simps) simp
    moreover have "sorted_wrt (<) (i # ys)" using ys(2,3) assms by force
    moreover have "\<forall>y\<in>set (i # ys). i \<le> y \<and> y < m" using ys(3) True assms by force
    moreover have "int (length (i # ys)) * step < m - i + step"
    proof (cases "ys = []")
      case True
      then show ?thesis using \<open>i < m\<close> by simp
    next
      case False
      then show ?thesis using ys(4) by (simp add: algebra_simps)
    qed
    ultimately show ?thesis by blast
  qed
qed

text \<open>
  C9. For \<open>maxTrials \<ge> 1\<close> and \<open>maxPoints \<ge> 2\<close>, \<open>generateAttemptValues\<close> returns a
  strictly ascending sequence (so without duplicates) that starts with 0, ends with
  \<open>maxTrials\<close> and has at most \<open>maxPoints + 1\<close> elements.
\<close>

theorem generateAttemptValues_ascending_bounded:
  assumes "1 \<le> maxTrials" and "2 \<le> maxPoints"
  shows "\<exists>xs. generateAttemptValues maxTrials maxPoints = Some xs \<and>
           sorted_wrt (<) xs \<and> distinct xs \<and> hd xs = 0 \<and> last xs = maxTrials \<and>
           int (length xs) \<le> maxPoints + 1"
proof -
  define step where "step = \<lceil>real_of_int maxTrials / real_of_int (maxPoints - 1)\<rceil>"
  have pos: "0 < real_of_int maxTrials / real_of_int (maxPoints - 1)"
    using assms by simp
  then have step1: "1 \<le> step" unfolding step_def by linarith
  have "real_of_int maxTrials / real_of_int (maxPoints - 1) \<le> real_of_int step"
    unfolding step_def by linarith
  then have "real_of_int maxTrials \<le> real_of_int step * real_of_int (maxPoints - 1)"
    using assms by (simp add: field_simps)
  then have cover: "maxTrials \<le> step * (maxPoints - 1)"
    by (metis of_int_le_iff of_int_mult)
  from attempts_loop_result [OF step1, of step maxTrials "[0]"] obtain ys where
    ys: "attempts_loop step step maxTrials [0] = Some ([0] @ ys)" "sorted_wrt (<) ys"
      "\<forall>y\<in>set ys. step \<le> y \<and> y < maxTrials"
      "ys \<noteq> [] \<longrightarrow> int (length ys) * step < maxTrials - step + step"
    by blast
  have lastne: "last (0 # ys) \<noteq> maxTrials"
  proof (cases "ys = []")
    case True
    then show ?thesis using assms by simp
  next
    case False
    then have "last ys \<in> set ys" by simp
    then show ?thesis using ys(3) False by auto
  qed
  have res: "generateAttemptValues maxTrials maxPoints = Some (0 # ys @ [maxTrials])"
    unfolding generateAttemptValues_def step_def [symmetric]
    using assms ys(1) lastne by (simp add: Let_def)
  have srt: "sorted_wrt (<) (0 # ys @ [maxTrials])"
    using ys(2,3) step1 assms by (auto simp: sorted_wrt_append)
  have len: "int (length ys) + 2 \<le> maxPoints"
  proof (cases "ys = []")
    case True
    then show ?thesis using assms by simp
  next
    case False
    then have "int (length ys) * step < step * (maxPoints - 1)" using ys(4) cover by simp
    then have "int (length ys) < maxPoints - 1" using step1
      by (simp add: mult.commute)
    then show ?thesis by simp
  qed
  have "distinct (0 # ys @ [maxTrials])"
    using srt strict_sorted_iff by blast
  then show ?thesis using res srt len by simp
qed

theorem generateAttemptValues_ascending_bounded_witness:
  "(1::int) \<le> 10 \<and> (2::int) \<le> 4 \<and> generateAttemptValues 10 4 = Some [0, 4, 8, 10] \<and>
   sorted_wrt (<) [0, 4, 8, 10 :: int] \<and> int (length [0, 4, 8, 10 :: int]) \<le> 4 + 1"
  using generateAttemptValues_ascending_bounded [of 10 4]
  by (simp add: generateAttemptValues_def attempts_loop.simps)

section \<open>The loops as products\<close>

lemma getDropRateForKill_valid:
  assumes "1 \<le> k" and "0 < b" and "0 < c" and "0 \<le> s"
  shows "getDropRateForKill k b s c = Inr (pity_denominator b s c k)"
  using assms by (simp add: getDropRateForKill_def pity_denominator_def)

lemma pity_denominator_ge:
  assumes "m \<le> b" and "m \<le> c"
  shows "m \<le> pity_denominator b s c k"
  using assms by (simp add: pity_denominator_def max_def)

lemma prod_int_from:
  fixes f :: "int \<Rightarrow> real"
  assumes "k \<le> n"
  shows "prod f {k..n} = f k * prod f {k + 1..n}"
proof -
  have "{k..n} = insert k {k + 1..n}" using assms by auto
  then show ?thesis by simp
qed

lemma blm_loop_prod:
  assumes "0 < b" and "0 < c" and "0 \<le> s" and "1 \<le> kill"
  shows "blm_loop kill n b s c acc = Inr (acc * prod (no_drop_factor b s c) {kill..n})"
  using assms
proof (induction kill n b s c acc rule: blm_loop.induct)
  case (1 kill n b s c acc)
  show ?case
  proof (cases "kill \<le> n")
    case True
    have d: "getDropRateForKill kill b s c = Inr (pity_denominator b s c kill)"
      using 1 by (simp add: getDropRateForKill_valid)
    have "blm_loop kill n b s c acc =
        blm_loop (kill + 1) n b s c (acc * (1 - 1 / pity_denominator b s c kill))"
      using True d by (subst blm_loop.simps) simp
    also have "\<dots> = Inr (acc * (1 - 1 / pity_denominator b s c kill) *
        prod (no_drop_factor b s c) {kill + 1..n})"
      using 1 True d by simp
    finally show ?thesis
      using True by (simp add: prod_int_from [of kill n] no_drop_factor_def mult.assoc)
  next
    case False
    then show ?thesis by (subst blm_loop.simps) simp
  qed
qed

text \<open>The loop of the combined function is the same loop.\<close>

lemma luck_blm_loop_eq: "luck_blm_loop kill n b s c acc = blm_loop kill n b s c acc"
proof (induction kill n b s c acc rule: blm_loop.induct)
  case (1 kill n b s c acc)
  show ?case
  proof (cases "kill \<le> n")
    case True
    show ?thesis
    proof (cases "getDropRateForKill kill b s c")
      case (Inl e)
      then show ?thesis using True
        by (subst luck_blm_loop.simps, subst blm_loop.simps) simp
    next
      case (Inr d)
      then show ?thesis using True 1
        by (subst luck_blm_loop.simps, subst blm_loop.simps) simp
    qed
  next
    case False
    then show ?thesis by (subst luck_blm_loop.simps, subst blm_loop.simps) simp
  qed
qed

section \<open>Values of the cumulative probabilities on valid arguments\<close>

lemma calculateCumulativeProbability_value:
  assumes "1 \<le> n" and "0 < rate"
  shows "calculateCumulativeProbability n rate =
           Inr (min (1 - (1 - 1 / rate) ^ nat n) 0.9999)"
  using assms
  by (simp add: calculateCumulativeProbability_def calculateBaseProbability_def
      MAX_PROBABILITY_def Let_def)


lemma calculateCumulativeProbabilityWithBLM_value:
  assumes "1 \<le> n" and "0 < b" and "0 < c" and "0 \<le> s"
  shows "calculateCumulativeProbabilityWithBLM n b s c =
           Inr (min (1 - prod (no_drop_factor b s c) {1..n}) 0.9999)"
  using assms
  by (simp add: calculateCumulativeProbabilityWithBLM_def blm_loop_prod Let_def)

lemma calculateCumulativeProbabilityWithLuckAndBLM_value:
  assumes "1 \<le> n" and "0 < b" and "0 < c" and "0 \<le> s"
  shows "calculateCumulativeProbabilityWithLuckAndBLM n b s c =
           Inr (min (1 - prod (no_drop_factor (b / 1.01) s (c / 1.01)) {1..n}) 0.9999)"
  using assms
  by (simp add: calculateCumulativeProbabilityWithLuckAndBLM_def applyLuckToDropRate_def
      LOTD_MULTIPLIER_def luck_blm_loop_eq blm_loop_prod Let_def)

section \<open>The range of the cumulative probabilities\<close>

lemma abs_prod_le_one:
  fixes f :: "int \<Rightarrow> real"
  assumes "\<And>k. k \<in> A \<Longrightarrow> \<bar>f k\<bar> \<le> 1"
  shows "\<bar>prod f A\<bar> \<le> 1"
proof -
  have "\<bar>prod f A\<bar> = (\<Prod>k\<in>A. \<bar>f k\<bar>)" by (rule abs_prod)
  also have "\<dots> \<le> 1" using assms by (intro prod_le_1) simp
  finally show ?thesis .
qed

lemma abs_factor_le_one:
  fixes d :: real
  assumes "1 / 2 \<le> d"
  shows "\<bar>1 - 1 / d\<bar> \<le> 1"
proof -
  have "0 < d" using assms by linarith
  then have "0 < 1 / d" by simp
  moreover have "1 / d \<le> 2" using assms \<open>0 < d\<close> by (simp add: field_simps)
  ultimately show ?thesis by linarith
qed

lemma capped_in_range:
  fixes P :: real
  assumes "\<bar>P\<bar> \<le> 1"
  shows "0 \<le> min (1 - P) 0.9999 \<and> min (1 - P) 0.9999 \<le> 0.9999"
proof -
  have "P \<le> 1" using assms by linarith
  then show ?thesis by (simp add: min_def)
qed

lemma plain_in_range:
  assumes "0 \<le> n" and "1 / 2 \<le> rate"
  shows "\<exists>p. calculateCumulativeProbability n rate = Inr p \<and> 0 \<le> p \<and> p \<le> 0.9999"
proof (cases "n = 0")
  case True
  then show ?thesis by (simp add: calculateCumulativeProbability_def)
next
  case False
  have "\<bar>(1 - 1 / rate) ^ nat n\<bar> \<le> 1"
    using abs_factor_le_one [OF assms(2)] by (simp add: power_abs power_le_one)
  from capped_in_range [OF this]
  show ?thesis using assms False by (simp add: calculateCumulativeProbability_value)
qed

lemma luck_in_range:
  assumes "0 \<le> n" and "101 / 200 \<le> rate"
  shows "\<exists>p. calculateCumulativeProbabilityWithLuck n rate = Inr p \<and> 0 \<le> p \<and> p \<le> 0.9999"
proof -
  have "1 / 2 \<le> rate / 1.01" using assms(2) by (simp add: field_simps)
  from plain_in_range [OF assms(1) this] show ?thesis using assms(2)
    by (simp add: calculateCumulativeProbabilityWithLuck_def applyLuckToDropRate_def
        LOTD_MULTIPLIER_def)
qed

lemma blm_in_range:
  assumes "0 \<le> n" and "1 / 2 \<le> rate" and "1 / 2 \<le> cap" and "0 \<le> start"
  shows "\<exists>p. calculateCumulativeProbabilityWithBLM n rate start cap = Inr p \<and>
           0 \<le> p \<and> p \<le> 0.9999"
proof (cases "n = 0")
  case True
  then show ?thesis by (simp add: calculateCumulativeProbabilityWithBLM_def)
next
  case False
  have "\<bar>prod (no_drop_factor rate start cap) {1..n}\<bar> \<le> 1"
    unfolding no_drop_factor_def
    by (intro abs_prod_le_one abs_factor_le_one pity_denominator_ge assms)
  from capped_in_range [OF this] have
    "0 \<le> min (1 - prod (no_drop_factor rate start cap) {1..n}) 0.9999 \<and>
     min (1 - prod (no_drop_factor rate start cap) {1..n}) 0.9999 \<le> 0.9999" .
  moreover have "calculateCumulativeProbabilityWithBLM n rate start cap =
      Inr (min (1 - prod (no_drop_factor rate start cap) {1..n}) 0.9999)"
    using assms False by (intro calculateCumulativeProbabilityWithBLM_value) linarith+
  ultimately show ?thesis by blast
qed

lemma luck_blm_in_range:
  assumes "0 \<le> n" and "101 / 200 \<le> rate" and "101 / 200 \<le> cap" and "0 \<le> start"
  shows "\<exists>p. calculateCumulativeProbabilityWithLuckAndBLM n rate start cap = Inr p \<and>
           0 \<le> p \<and> p \<le> 0.9999"
proof (cases "n = 0")
  case True
  then show ?thesis by (simp add: calculateCumulativeProbabilityWithLuckAndBLM_def)
next
  case False
  have r: "1 / 2 \<le> rate / 1.01" using assms(2) by (simp add: field_simps)
  have c: "1 / 2 \<le> cap / 1.01" using assms(3) by (simp add: field_simps)
  have "\<bar>prod (no_drop_factor (rate / 1.01) start (cap / 1.01)) {1..n}\<bar> \<le> 1"
    unfolding no_drop_factor_def
    by (intro abs_prod_le_one abs_factor_le_one pity_denominator_ge r c)
  from capped_in_range [OF this] have
    "0 \<le> min (1 - prod (no_drop_factor (rate / 1.01) start (cap / 1.01)) {1..n}) 0.9999 \<and>
     min (1 - prod (no_drop_factor (rate / 1.01) start (cap / 1.01)) {1..n}) 0.9999 \<le> 0.9999" .
  moreover have "calculateCumulativeProbabilityWithLuckAndBLM n rate start cap =
      Inr (min (1 - prod (no_drop_factor (rate / 1.01) start (cap / 1.01)) {1..n}) 0.9999)"
    using assms False by (intro calculateCumulativeProbabilityWithLuckAndBLM_value) linarith+
  ultimately show ?thesis by blast
qed

lemma enrage_in_range:
  assumes "0 \<le> n" and "calculateEnrageScaledDropRate boss enrage rate = Inr s"
    and "1 / 2 \<le> s"
  shows "\<exists>p. calculateCumulativeProbabilityWithEnrage n boss enrage rate = Inr (Fin p) \<and>
           0 \<le> p \<and> p \<le> 0.9999"
proof (cases "n = 0")
  case True
  then show ?thesis by (simp add: calculateCumulativeProbabilityWithEnrage_def)
next
  case False
  have "\<bar>(1 - 1 / s) ^ nat n\<bar> \<le> 1"
    using abs_factor_le_one [OF assms(3)] by (simp add: power_abs power_le_one)
  from capped_in_range [OF this] show ?thesis using assms False
    by (simp add: calculateCumulativeProbabilityWithEnrage_def Let_def)
qed

text \<open>
  C1, as stated: every rate above zero and every trial count would give a cumulative
  probability between 0 and 0.9999. A rate below one half makes the per-trial factor
  \<open>1 - 1 / rate\<close> smaller than \<open>-1\<close>, and only the upper end is clamped: at rate 1/4
  and two trials the result is \<open>1 - (-3)\<^sup>2 = -8\<close>. The enrage variant reaches the same
  value from the base rate 128 at Arch-Glacor enrage 613200, where the scaled rate is 1/4.
\<close>

theorem cumulative_probability_negative:
  "calculateCumulativeProbability 2 (1 / 4) = Inr (- 8) \<and> \<not> 0 \<le> (- 8 :: real) \<and>
   calculateCumulativeProbabilityWithEnrage 2 ''arch_glacor'' 613200 128 = Inr (Fin (- 8))"
  by (simp add: calculateCumulativeProbability_def calculateBaseProbability_def
      MAX_PROBABILITY_def calculateCumulativeProbabilityWithEnrage_def
      calculateEnrageScaledDropRate_def calculateArchGlacorDropRate_def)

text \<open>
  C1, amended: for every trial count \<open>\<ge> 0\<close> each of the five functions returns a value
  in the closed interval from 0 to 0.9999 when every per-trial denominator it divides by
  is at least 1/2: \<open>rate \<ge> 1/2\<close> for \<open>calculateCumulativeProbability\<close>,
  \<open>rate \<ge> 0.505\<close> for the luck variant, \<open>rate \<ge> 1/2\<close> and \<open>cap \<ge> 1/2\<close> for the
  pity variant, \<open>rate \<ge> 0.505\<close> and \<open>cap \<ge> 0.505\<close> for luck with pity (each with
  \<open>start \<ge> 0\<close>), and a scaled rate \<open>\<ge> 1/2\<close> for the enrage variant. Every rate and
  cap \<open>\<ge> 1\<close> is covered.
\<close>

theorem cumulative_probability_in_range:
  assumes "0 \<le> trials"
  shows "(1 / 2 \<le> rate \<longrightarrow>
            (\<exists>p. calculateCumulativeProbability trials rate = Inr p \<and>
                 0 \<le> p \<and> p \<le> 0.9999)) \<and>
         (101 / 200 \<le> rate \<longrightarrow>
            (\<exists>p. calculateCumulativeProbabilityWithLuck trials rate = Inr p \<and>
                 0 \<le> p \<and> p \<le> 0.9999)) \<and>
         (1 / 2 \<le> rate \<and> 1 / 2 \<le> cap \<and> 0 \<le> start \<longrightarrow>
            (\<exists>p. calculateCumulativeProbabilityWithBLM trials rate start cap = Inr p \<and>
                 0 \<le> p \<and> p \<le> 0.9999)) \<and>
         (101 / 200 \<le> rate \<and> 101 / 200 \<le> cap \<and> 0 \<le> start \<longrightarrow>
            (\<exists>p. calculateCumulativeProbabilityWithLuckAndBLM trials rate start cap = Inr p \<and>
                 0 \<le> p \<and> p \<le> 0.9999)) \<and>
         (calculateEnrageScaledDropRate boss enrage rate = Inr scaled \<and> 1 / 2 \<le> scaled \<longrightarrow>
            (\<exists>p. calculateCumulativeProbabilityWithEnrage trials boss enrage rate =
                   Inr (Fin p) \<and> 0 \<le> p \<and> p \<le> 0.9999))"
proof (intro conjI impI)
  assume "1 / 2 \<le> rate"
  with assms show "\<exists>p. calculateCumulativeProbability trials rate = Inr p \<and>
      0 \<le> p \<and> p \<le> 0.9999"
    by (rule plain_in_range)
next
  assume "101 / 200 \<le> rate"
  with assms show "\<exists>p. calculateCumulativeProbabilityWithLuck trials rate = Inr p \<and>
      0 \<le> p \<and> p \<le> 0.9999"
    by (rule luck_in_range)
next
  assume "1 / 2 \<le> rate \<and> 1 / 2 \<le> cap \<and> 0 \<le> start"
  with assms show "\<exists>p. calculateCumulativeProbabilityWithBLM trials rate start cap = Inr p \<and>
      0 \<le> p \<and> p \<le> 0.9999"
    by (intro blm_in_range) simp_all
next
  assume "101 / 200 \<le> rate \<and> 101 / 200 \<le> cap \<and> 0 \<le> start"
  with assms show "\<exists>p. calculateCumulativeProbabilityWithLuckAndBLM trials rate start cap =
      Inr p \<and> 0 \<le> p \<and> p \<le> 0.9999"
    by (intro luck_blm_in_range) simp_all
next
  assume "calculateEnrageScaledDropRate boss enrage rate = Inr scaled \<and> 1 / 2 \<le> scaled"
  with assms show "\<exists>p. calculateCumulativeProbabilityWithEnrage trials boss enrage rate =
      Inr (Fin p) \<and> 0 \<le> p \<and> p \<le> 0.9999"
    by (intro enrage_in_range [where s = scaled]) simp_all
qed

theorem cumulative_probability_in_range_witness:
  "(0::int) \<le> 2 \<and> (101 / 200 :: real) \<le> 128 \<and> (101 / 200 :: real) \<le> 20 \<and> (0::int) \<le> 1 \<and>
   calculateEnrageScaledDropRate ''telos'' 1000 128 = Inr 64 \<and> (1 / 2 :: real) \<le> 64 \<and>
   (\<exists>p. calculateCumulativeProbability 2 128 = Inr p \<and> 0 \<le> p \<and> p \<le> 0.9999) \<and>
   (\<exists>p. calculateCumulativeProbabilityWithLuck 2 128 = Inr p \<and> 0 \<le> p \<and> p \<le> 0.9999) \<and>
   (\<exists>p. calculateCumulativeProbabilityWithBLM 2 128 1 20 = Inr p \<and> 0 \<le> p \<and> p \<le> 0.9999) \<and>
   (\<exists>p. calculateCumulativeProbabilityWithLuckAndBLM 2 128 1 20 = Inr p \<and>
        0 \<le> p \<and> p \<le> 0.9999) \<and>
   (\<exists>p. calculateCumulativeProbabilityWithEnrage 2 ''telos'' 1000 128 = Inr (Fin p) \<and>
        0 \<le> p \<and> p \<le> 0.9999)"
proof -
  have s: "calculateEnrageScaledDropRate ''telos'' 1000 128 = Inr 64"
    by (simp add: calculateEnrageScaledDropRate_def calculateTelosDropRate_def)
  show ?thesis
    using cumulative_probability_in_range [of 2 128 20 1 "''telos''" 1000 64] s
    by simp
qed

section \<open>Bounds on powers by repeated squaring\<close>

lemma pow_double_upper:
  fixes q u v :: real
  assumes "0 \<le> q" and "q ^ k \<le> u" and "u * u \<le> v"
  shows "q ^ (2 * k) \<le> v"
proof -
  have "0 \<le> q ^ k" using assms(1) by simp
  then have "q ^ k * q ^ k \<le> u * u" using assms(2) by (intro mult_mono) linarith+
  moreover have "q ^ (2 * k) = q ^ k * q ^ k" by (simp add: mult_2 power_add)
  ultimately show ?thesis using assms(3) by linarith
qed

lemma pow_add_upper:
  fixes q u v w :: real
  assumes "0 \<le> q" and "q ^ j \<le> u" and "q ^ k \<le> v" and "u * v \<le> w"
  shows "q ^ (j + k) \<le> w"
proof -
  have "0 \<le> q ^ j" "0 \<le> q ^ k" using assms(1) by simp_all
  then have "q ^ j * q ^ k \<le> u * v" using assms(2,3) by (intro mult_mono) linarith+
  then show ?thesis using assms(4) by (simp add: power_add)
qed

lemma pow_double_lower:
  fixes q l v :: real
  assumes "0 \<le> l" and "l \<le> q ^ k" and "v \<le> l * l"
  shows "v \<le> q ^ (2 * k)"
proof -
  have "l * l \<le> q ^ k * q ^ k" using assms(1,2) by (intro mult_mono) linarith+
  moreover have "q ^ (2 * k) = q ^ k * q ^ k" by (simp add: mult_2 power_add)
  ultimately show ?thesis using assms(3) by linarith
qed

lemma pow_add_lower:
  fixes q l m w :: real
  assumes "0 \<le> l" and "0 \<le> m" and "l \<le> q ^ j" and "m \<le> q ^ k" and "w \<le> l * m"
  shows "w \<le> q ^ (j + k)"
proof -
  have "l * m \<le> q ^ j * q ^ k" using assms(1-4) by (intro mult_mono) linarith+
  then show ?thesis using assms(5) by (simp add: power_add)
qed

text \<open>
  The four comparisons behind the milestones at rate 128, with twelve-digit bounds on
  the powers of 127/128.
\<close>

lemma power_127_128_bounds:
  "(127 / 128 :: real) ^ 294 \<le> 1 / 10 \<and> 1 / 10 < (127 / 128 :: real) ^ 293 \<and>
   (127 / 128 :: real) ^ 588 \<le> 1 / 100 \<and> 1 / 100 < (127 / 128 :: real) ^ 587"
proof -
  define q :: real where "q = 127 / 128"
  have q0: "0 \<le> q" by (simp add: q_def)
  have u1: "q ^ 1 \<le> 992187500000 / 10 ^ 12" by (simp add: q_def)
  have l1: "992187500000 / 10 ^ 12 \<le> q ^ 1" by (simp add: q_def)
  have u2: "q ^ 2 \<le> 984436035157 / 10 ^ 12"
    using pow_double_upper [OF q0 u1, of "984436035157 / 10 ^ 12"] by simp
  have l2: "984436035156 / 10 ^ 12 \<le> q ^ 2"
    using pow_double_lower [OF _ l1, of "984436035156 / 10 ^ 12"] by simp
  have u4: "q ^ 4 \<le> 969114307316 / 10 ^ 12"
    using pow_double_upper [OF q0 u2, of "969114307316 / 10 ^ 12"] by simp
  have l4: "969114307313 / 10 ^ 12 \<le> q ^ 4"
    using pow_double_lower [OF _ l2, of "969114307313 / 10 ^ 12"] by simp
  have u8: "q ^ 8 \<le> 939182540645 / 10 ^ 12"
    using pow_double_upper [OF q0 u4, of "939182540645 / 10 ^ 12"] by simp
  have l8: "939182540638 / 10 ^ 12 \<le> q ^ 8"
    using pow_double_lower [OF _ l4, of "939182540638 / 10 ^ 12"] by simp
  have u16: "q ^ 16 \<le> 882063844653 / 10 ^ 12"
    using pow_double_upper [OF q0 u8, of "882063844653 / 10 ^ 12"] by simp
  have l16: "882063844639 / 10 ^ 12 \<le> q ^ 16"
    using pow_double_lower [OF _ l8, of "882063844639 / 10 ^ 12"] by simp
  have u32: "q ^ 32 \<le> 778036626045 / 10 ^ 12"
    using pow_double_upper [OF q0 u16, of "778036626045 / 10 ^ 12"] by simp
  have l32: "778036626019 / 10 ^ 12 \<le> q ^ 32"
    using pow_double_lower [OF _ l16, of "778036626019 / 10 ^ 12"] by simp
  have u64: "q ^ 64 \<le> 605340991468 / 10 ^ 12"
    using pow_double_upper [OF q0 u32, of "605340991468 / 10 ^ 12"] by simp
  have l64: "605340991427 / 10 ^ 12 \<le> q ^ 64"
    using pow_double_lower [OF _ l32, of "605340991427 / 10 ^ 12"] by simp
  have u128: "q ^ 128 \<le> 366437715952 / 10 ^ 12"
    using pow_double_upper [OF q0 u64, of "366437715952 / 10 ^ 12"] by simp
  have l128: "366437715901 / 10 ^ 12 \<le> q ^ 128"
    using pow_double_lower [OF _ l64, of "366437715901 / 10 ^ 12"] by simp
  have u256: "q ^ 256 \<le> 134276599673 / 10 ^ 12"
    using pow_double_upper [OF q0 u128, of "134276599673 / 10 ^ 12"] by simp
  have l256: "134276599634 / 10 ^ 12 \<le> q ^ 256"
    using pow_double_lower [OF _ l128, of "134276599634 / 10 ^ 12"] by simp
  have u512: "q ^ 512 \<le> 18030205220 / 10 ^ 12"
    using pow_double_upper [OF q0 u256, of "18030205220 / 10 ^ 12"] by simp
  have l512: "18030205209 / 10 ^ 12 \<le> q ^ 512"
    using pow_double_lower [OF _ l256, of "18030205209 / 10 ^ 12"] by simp
  have a288: "q ^ 288 \<le> 104472112567 / 10 ^ 12"
    using pow_add_upper [OF q0 u256 u32, of "104472112567 / 10 ^ 12"] by simp
  have a292: "q ^ 292 \<le> 101245419005 / 10 ^ 12"
    using pow_add_upper [OF q0 a288 u4, of "101245419005 / 10 ^ 12"] by simp
  have a294: "q ^ 294 \<le> 99669638864 / 10 ^ 12"
    using pow_add_upper [OF q0 a292 u2, of "99669638864 / 10 ^ 12"] by simp
  have b288: "104472112532 / 10 ^ 12 \<le> q ^ 288"
    using pow_add_lower [OF _ _ l256 l32, of "104472112532 / 10 ^ 12"] by simp
  have b292: "101245418969 / 10 ^ 12 \<le> q ^ 292"
    using pow_add_lower [OF _ _ b288 l4, of "101245418969 / 10 ^ 12"] by simp
  have b293: "100454439133 / 10 ^ 12 \<le> q ^ 293"
    using pow_add_lower [OF _ _ b292 l1, of "100454439133 / 10 ^ 12"] by simp
  have c576: "q ^ 576 \<le> 10914422305 / 10 ^ 12"
    using pow_add_upper [OF q0 u512 u64, of "10914422305 / 10 ^ 12"] by simp
  have c584: "q ^ 584 \<le> 10250634871 / 10 ^ 12"
    using pow_add_upper [OF q0 c576 u8, of "10250634871 / 10 ^ 12"] by simp
  have c588: "q ^ 588 \<le> 9934036913 / 10 ^ 12"
    using pow_add_upper [OF q0 c584 u4, of "9934036913 / 10 ^ 12"] by simp
  have d576: "10914422296 / 10 ^ 12 \<le> q ^ 576"
    using pow_add_lower [OF _ _ l512 l64, of "10914422296 / 10 ^ 12"] by simp
  have d584: "10250634861 / 10 ^ 12 \<le> q ^ 584"
    using pow_add_lower [OF _ _ d576 l8, of "10250634861 / 10 ^ 12"] by simp
  have d586: "10091094340 / 10 ^ 12 \<le> q ^ 586"
    using pow_add_lower [OF _ _ d584 l2, of "10091094340 / 10 ^ 12"] by simp
  have d587: "10012257665 / 10 ^ 12 \<le> q ^ 587"
    using pow_add_lower [OF _ _ d586 l1, of "10012257665 / 10 ^ 12"] by simp
  have "q ^ 294 \<le> 1 / 10" using a294 by simp
  moreover have "1 / 10 < q ^ 293" using b293 by simp
  moreover have "q ^ 588 \<le> 1 / 100" using c588 by simp
  moreover have "1 / 100 < q ^ 587" using d587 by simp
  ultimately show ?thesis unfolding q_def by blast
qed

section \<open>The closed-form milestone solver\<close>

lemma log_ratio_le_iff:
  fixes q u :: real
  assumes "0 < q" and "q < 1" and "0 < u"
  shows "ln u / ln q \<le> real k \<longleftrightarrow> q ^ k \<le> u"
proof -
  have neg: "ln q < 0" using assms by simp
  have "ln u / ln q \<le> real k \<longleftrightarrow> real k * ln q \<le> ln u"
    using neg by (simp add: divide_le_eq)
  also have "\<dots> \<longleftrightarrow> ln (q ^ k) \<le> ln u"
    using assms by (simp add: ln_realpow)
  also have "\<dots> \<longleftrightarrow> q ^ k \<le> u"
    using assms by (simp add: ln_le_cancel_iff)
  finally show ?thesis .
qed

lemma log_ratio_gt_iff:
  fixes q u :: real
  assumes "0 < q" and "q < 1" and "0 < u"
  shows "real k < ln u / ln q \<longleftrightarrow> u < q ^ k"
  using log_ratio_le_iff [OF assms, of k] by linarith

lemma Math_log_pos: "0 < x \<Longrightarrow> Math_log x = Fin (ln x)"
  by (simp add: Math_log_def)

lemma findMilestoneAttempts_value:
  assumes "0 < t" and "t < 1" and "1 < rate"
  shows "findMilestoneAttempts t rate =
           Inr (Fin (of_int \<lceil>ln (1 - min t 0.9999) / ln (1 - 1 / rate)\<rceil>))"
proof -
  have q: "0 < 1 - 1 / rate" "1 - 1 / rate < 1" using assms by simp_all
  then have "ln (1 - 1 / rate) < 0" by simp
  then have l: "ln (1 - 1 / rate) \<noteq> 0" by simp
  have u: "0 < 1 - min t 0.9999" using assms by (simp add: min_def)
  have r: "0 < rate" using assms by simp
  have m1: "Math_log (1 - min t 0.9999) = Fin (ln (1 - min t 0.9999))"
    using u by (rule Math_log_pos)
  have m2: "Math_log (1 - 1 / rate) = Fin (ln (1 - 1 / rate))"
    using q(1) by (rule Math_log_pos)
  have d: "js_div (Math_log (1 - min t 0.9999)) (Math_log (1 - 1 / rate)) =
      Fin (ln (1 - min t 0.9999) / ln (1 - 1 / rate))"
    unfolding m1 m2 using l by simp
  have c: "calculateBaseProbability rate = Inr (1 / rate)"
    using r by (simp add: calculateBaseProbability_def)
  show ?thesis
    unfolding findMilestoneAttempts_def MAX_PROBABILITY_def c sum.case Let_def d
    using assms(1,2) by simp
qed

lemma ceiling_log_ratio:
  fixes q u :: real
  assumes "0 < q" and "q < 1" and "0 < u" and "0 < k"
    and "q ^ k \<le> u" and "u < q ^ (k - 1)"
  shows "\<lceil>ln u / ln q\<rceil> = int k"
proof (rule ceiling_unique)
  have "real (k - 1) = real k - 1" using assms(4) by (simp add: of_nat_diff)
  then show "of_int (int k) - 1 < ln u / ln q"
    using log_ratio_gt_iff [OF assms(1-3), of "k - 1"] assms(6) by simp
  show "ln u / ln q \<le> of_int (int k)"
    using log_ratio_le_iff [OF assms(1-3), of k] assms(5) by simp
qed

lemma milestone_2: "findMilestoneAttempts 0.99995 2 = Inr (Fin 14)"
proof -
  have "\<lceil>ln (1 / 10000 :: real) / ln (1 / 2)\<rceil> = int 14"
    by (rule ceiling_log_ratio) (simp_all add: power_divide)
  then have "\<lceil>ln (1 - min (0.99995 :: real) 0.9999) / ln (1 - 1 / 2)\<rceil> = 14" by simp
  then show ?thesis by (simp add: findMilestoneAttempts_value)
qed

lemma milestone_rate_one: "findMilestoneAttempts (1 / 2) 1 = Inr (Fin 0)"
  by (simp add: findMilestoneAttempts_def calculateBaseProbability_def MAX_PROBABILITY_def
      Math_log_def Let_def)

text \<open>
  Targets above the cap. The solver replaces a target above 0.9999 by 0.9999 and the
  cumulative probability never exceeds 0.9999: at target 0.99995 and rate 2 the milestone
  is 14 and the probability there is 0.9999. At rate 1 the logarithm of zero is
  \<open>-Infinity\<close>, the milestone is 0, and the probability at 0 trials is 0.
\<close>

lemma findMilestoneAttempts_misses_target:
  "findMilestoneAttempts 0.99995 2 = Inr (Fin 14) \<and>
   calculateCumulativeProbability 14 2 = Inr 0.9999 \<and> \<not> (0.99995 :: real) \<le> 0.9999 \<and>
   findMilestoneAttempts (1 / 2) 1 = Inr (Fin 0) \<and>
   calculateCumulativeProbability 0 1 = Inr 0 \<and> \<not> (1 / 2 :: real) \<le> 0"
  using milestone_2 milestone_rate_one
  by (simp add: calculateCumulativeProbability_def calculateBaseProbability_def
      MAX_PROBABILITY_def power_divide)

text \<open>
  The closed form in exact arithmetic. For a target with \<open>0 < target \<le> 0.9999\<close> and a
  rate above 1 the ceiling of the exact quotient \<open>ln (1 - target) / ln (1 - 1 / rate)\<close>
  is the minimal sufficient trial count. This is a fact about the formula: the source
  takes the ceiling of a rounded quotient, which can be one off where the exact quotient
  is an integer.
\<close>

lemma closed_form_minimal_in_exact_arithmetic:
  assumes "0 < target" and "target \<le> 0.9999" and "1 < rate"
  shows "\<exists>n p q. findMilestoneAttempts target rate = Inr (Fin (of_int n)) \<and>
           calculateCumulativeProbability n rate = Inr p \<and> target \<le> p \<and>
           calculateCumulativeProbability (n - 1) rate = Inr q \<and> q < target"
proof -
  define b where "b = 1 - 1 / rate"
  define x where "x = ln (1 - target) / ln b"
  define n where "n = \<lceil>x\<rceil>"
  have b: "0 < b" "b < 1" using assms unfolding b_def by simp_all
  have u: "0 < 1 - target" "1 - target < 1" using assms by simp_all
  have t1: "target < 1" using assms by simp
  have cap: "min target 0.9999 = target" using assms by simp
  have "ln b < 0" using b by simp
  moreover have "ln (1 - target) < 0" using u by simp
  ultimately have "0 < x" unfolding x_def by (simp add: divide_neg_neg)
  then have n1: "1 \<le> n" unfolding n_def by linarith
  have res: "findMilestoneAttempts target rate = Inr (Fin (of_int n))"
    using findMilestoneAttempts_value [OF assms(1) t1 assms(3)]
    unfolding cap n_def x_def b_def .
  have "x \<le> real (nat n)" using n1 unfolding n_def by linarith
  then have le: "b ^ nat n \<le> 1 - target"
    using log_ratio_le_iff [OF b u(1), of "nat n"] by (simp add: x_def)
  have "real (nat (n - 1)) < x" using n1 unfolding n_def by linarith
  then have gt: "1 - target < b ^ nat (n - 1)"
    using log_ratio_gt_iff [OF b u(1), of "nat (n - 1)"] by (simp add: x_def)
  have r0: "0 < rate" using assms by simp
  have pn: "calculateCumulativeProbability n rate = Inr (min (1 - b ^ nat n) 0.9999)"
    using calculateCumulativeProbability_value [OF n1 r0] by (simp add: b_def)
  have ge: "target \<le> min (1 - b ^ nat n) 0.9999" using le assms(2) by simp
  have "\<exists>q. calculateCumulativeProbability (n - 1) rate = Inr q \<and> q < target"
  proof (cases "n = 1")
    case True
    then show ?thesis using assms(1) by (simp add: calculateCumulativeProbability_def)
  next
    case False
    then have "1 \<le> n - 1" using n1 by simp
    from calculateCumulativeProbability_value [OF this r0]
    have "calculateCumulativeProbability (n - 1) rate =
        Inr (min (1 - b ^ nat (n - 1)) 0.9999)" by (simp add: b_def)
    moreover have "min (1 - b ^ nat (n - 1)) 0.9999 < target" using gt by simp
    ultimately show ?thesis by blast
  qed
  then show ?thesis using res pn ge by blast
qed

text \<open>
  C2. The claim asks for the minimal sufficient trial count. At target 37/64 and rate 4
  three trials reach the target exactly (\<open>1 - (3/4)\<^sup>3 = 37/64\<close>) and two trials do not
  (\<open>1 - (3/4)\<^sup>2 = 7/16\<close>), so the count the claim requires is 3; all of these values
  are exact binary fractions. The source takes the ceiling of the rounded quotient
  \<open>Math.log(0.421875) / Math.log(0.75)\<close>, which lies just above 3, and returns 4.
\<close>

theorem three_trials_reach_target_at_rate_4:
  "calculateCumulativeProbability 3 4 = Inr (37 / 64) \<and>
   calculateCumulativeProbability 2 4 = Inr (7 / 16) \<and> (7 / 16 :: real) < 37 / 64"
  by (simp add: calculateCumulativeProbability_def calculateBaseProbability_def
      MAX_PROBABILITY_def power_divide)

section \<open>Milestones at rate 128\<close>

lemma milestone_90_at_128: "findMilestoneAttempts 0.9 128 = Inr (Fin 294)"
proof -
  have b: "(127 / 128 :: real) ^ 294 \<le> 1 / 10" "1 / 10 < (127 / 128 :: real) ^ (294 - 1)"
    using power_127_128_bounds by simp_all
  have "\<lceil>ln (1 / 10 :: real) / ln (127 / 128)\<rceil> = int 294"
    by (rule ceiling_log_ratio [OF _ _ _ _ b]) simp_all
  then have "\<lceil>ln (1 - min (0.9 :: real) 0.9999) / ln (1 - 1 / 128)\<rceil> = 294" by simp
  then show ?thesis by (simp add: findMilestoneAttempts_value)
qed

lemma milestone_99_at_128: "findMilestoneAttempts 0.99 128 = Inr (Fin 588)"
proof -
  have b: "(127 / 128 :: real) ^ 588 \<le> 1 / 100" "1 / 100 < (127 / 128 :: real) ^ (588 - 1)"
    using power_127_128_bounds by simp_all
  have "\<lceil>ln (1 / 100 :: real) / ln (127 / 128)\<rceil> = int 588"
    by (rule ceiling_log_ratio [OF _ _ _ _ b]) simp_all
  then have "\<lceil>ln (1 - min (0.99 :: real) 0.9999) / ln (1 - 1 / 128)\<rceil> = 588" by simp
  then show ?thesis by (simp add: findMilestoneAttempts_value)
qed

text \<open>
  C8, as stated: the solver at rate 128 would return 295 trials for target 0.9 and 589
  for target 0.99. The closed form \<open>ceil (ln (1 - target) / ln (1 - 1/128))\<close> gives
  294 for 0.9, since \<open>(127/128)\<^sup>2\<^sup>9\<^sup>4 \<le> 1/10 < (127/128)\<^sup>2\<^sup>9\<^sup>3\<close>.
\<close>

theorem findMilestoneAttempts_128_not_295:
  "findMilestoneAttempts 0.9 128 \<noteq> Inr (Fin 295)"
  using milestone_90_at_128 by simp

text \<open>
  C8, amended: the closed-form milestone solver at rate 128 returns exactly 294 trials
  for target 0.9 and exactly 588 trials for target 0.99.
\<close>

theorem findMilestoneAttempts_128_milestones:
  "findMilestoneAttempts 0.9 128 = Inr (Fin 294) \<and>
   findMilestoneAttempts 0.99 128 = Inr (Fin 588)"
  using milestone_90_at_128 milestone_99_at_128 by simp

section \<open>Pity against the probability without pity\<close>

lemma power_as_prod:
  fixes x :: real and n :: int
  shows "x ^ nat n = prod (\<lambda>k. x) {1..n}"
  by simp







text \<open>
  With the cap equal to the base the schedule never improves: every kill has the base
  denominator. This is the fold that pity is measured against below.
\<close>

lemma unmitigated_denominator: "pity_denominator b s b k = b"
  by (simp add: pity_denominator_def)



text \<open>
  In exact arithmetic the fold without improvement is the closed form of
  \<open>calculateCumulativeProbability\<close>. The source computes the one by repeated
  multiplication and the other by \<open>Math.pow\<close>, so on numbers the two agree only up to
  rounding; no order between them is used below.
\<close>

lemma unmitigated_prod_is_power:
  "prod (no_drop_factor b s b) {1..n} = (1 - 1 / b) ^ nat n"
proof -
  have "prod (no_drop_factor b s b) {1..n} = prod (\<lambda>k. 1 - 1 / b) {1..n}"
    by (intro prod.cong) (simp_all add: no_drop_factor_def unmitigated_denominator)
  then show ?thesis by (simp only: power_as_prod)
qed




section \<open>Luck with pity against each modifier alone\<close>













end
